theory Spec2Isabelle
  imports Complex_Main "HOL-Library.Sublist" "HOL-Library.AList"
begin

section \<open>Frame selection\<close>

text \<open>
  The script \<^verbatim>\<open>run_dynamic_epharmacophore.py\<close> enumerates the files \<^verbatim>\<open>input_mae_files/*.mae\<close>,
  sorts them by the integer read from the file name without its extension, and keeps the
  ones inside the index range and on the stride (lines 73-78). A matched path is
  represented by its stem, the value of \<^verbatim>\<open>os.path.splitext(os.path.basename(x))[0]\<close>,
  which is also the \<^verbatim>\<open>base_index\<close> of \<^verbatim>\<open>process_frame\<close>. The list handed to the
  definitions is the result of \<^verbatim>\<open>glob.glob\<close>, in the arbitrary order of the directory.

  Python's built-in \<^verbatim>\<open>int\<close> is not code of the script: the definitions take the reader of
  integers as the parameter \<open>pint\<close>, \<open>None\<close> standing for the \<^verbatim>\<open>ValueError\<close> it raises.
\<close>

datatype py_error = ValueError | ZeroDivisionError

text \<open>
  \<^verbatim>\<open>sorted(names, key=lambda x: int(stem x))\<close>: the keys of all elements are computed first,
  so one unreadable stem raises; the sort is stable, as \<open>sort_key\<close> is.
\<close>

definition all_maes :: "(string \<Rightarrow> int option) \<Rightarrow> string list \<Rightarrow> py_error + string list" where
  "all_maes pint names =
     (case those (map pint names) of
        None \<Rightarrow> Inl ValueError
      | Some keys \<Rightarrow> Inr (map snd (sort_key fst (zip keys names))))"

text \<open>
  The comprehension of line 74. The condition is
  \<^verbatim>\<open>START_IDX <= k <= END_IDX and (k - START_IDX) % STEP == 0\<close>: the remainder is taken only
  for an index inside the range, and raises when \<^verbatim>\<open>STEP\<close> is zero. Python's \<^verbatim>\<open>%\<close> on
  integers is the floored remainder, as \<open>mod\<close> on \<open>int\<close>.
\<close>

fun select_frames ::
  "(string \<Rightarrow> int option) \<Rightarrow> int \<Rightarrow> int \<Rightarrow> int \<Rightarrow> string list \<Rightarrow> py_error + string list" where
  "select_frames pint start end step [] = Inr []"
| "select_frames pint start end step (f # fs) =
     (case pint f of
        None \<Rightarrow> Inl ValueError
      | Some k \<Rightarrow>
          if start \<le> k \<and> k \<le> end then
            (if step = 0 then Inl ZeroDivisionError
             else if (k - start) mod step = 0 then
               (case select_frames pint start end step fs of
                  Inl e \<Rightarrow> Inl e
                | Inr sel \<Rightarrow> Inr (f # sel))
             else select_frames pint start end step fs)
          else select_frames pint start end step fs)"

definition selected_maes ::
  "(string \<Rightarrow> int option) \<Rightarrow> int \<Rightarrow> int \<Rightarrow> int \<Rightarrow> string list \<Rightarrow> py_error + string list" where
  "selected_maes pint start end step names =
     (case all_maes pint names of
        Inl e \<Rightarrow> Inl e
      | Inr sorted_names \<Rightarrow> select_frames pint start end step sorted_names)"

text \<open>The index of a stem whose reading succeeds.\<close>

definition index_of :: "(string \<Rightarrow> int option) \<Rightarrow> string \<Rightarrow> int" where
  "index_of pint s = (case pint s of Some k \<Rightarrow> k | None \<Rightarrow> 0)"

text \<open>
  A reader of plain decimal numerals (an optional sign, then ASCII digits), used for the
  concrete evaluations. On these strings it agrees with Python's \<^verbatim>\<open>int\<close>, which accepts
  more (surrounding white space, single underscores between digits).
\<close>

definition digit_of :: "char \<Rightarrow> nat option" where
  "digit_of = map_of
     [(CHR ''0'', 0), (CHR ''1'', 1), (CHR ''2'', 2), (CHR ''3'', 3), (CHR ''4'', 4),
      (CHR ''5'', 5), (CHR ''6'', 6), (CHR ''7'', 7), (CHR ''8'', 8), (CHR ''9'', 9)]"

fun digits_from :: "nat \<Rightarrow> string \<Rightarrow> nat option" where
  "digits_from acc [] = Some acc"
| "digits_from acc (c # cs) =
     (case digit_of c of None \<Rightarrow> None | Some d \<Rightarrow> digits_from (10 * acc + d) cs)"

definition decimal :: "string \<Rightarrow> nat option" where
  "decimal s = (if s = [] then None else digits_from 0 s)"

definition plain_int :: "string \<Rightarrow> int option" where
  "plain_int s =
     (case s of
        [] \<Rightarrow> None
      | c # cs \<Rightarrow>
          if c = CHR ''-'' then map_option (\<lambda>n. - int n) (decimal cs)
          else if c = CHR ''+'' then map_option int (decimal cs)
          else map_option int (decimal s))"

section \<open>The pipeline of one frame\<close>

text \<open>
  \<^verbatim>\<open>process_frame\<close> (lines 83-173) drives one frame through the stage programs. What the
  outside world answers is collected in a record, one field per point where the function
  depends on it: the exit status of each program started by \<^verbatim>\<open>nice_run\<close> (with
  \<^verbatim>\<open>check=True\<close>, a non-zero status raises \<^verbatim>\<open>CalledProcessError\<close>), the atoms read from
  the ligand file (\<open>None\<close> when \<^verbatim>\<open>StructureReader\<close> or \<^verbatim>\<open>next\<close> raises), the listing of
  the working directory seen by each poll (name and modification time; only the order of
  the times matters), and whether the file operations of the script itself succeed
  (\<^verbatim>\<open>shutil.copy\<close>, \<^verbatim>\<open>os.rename\<close>, \<^verbatim>\<open>open\<close>; their exceptions are not caught by any handler
  of the function). The last field is the content of the hypothesis file that the
  hypothesis program writes when it succeeds.
\<close>

datatype program = Prepwizard | Pv_convert | Glide_gridgen | Epharmacophores

datatype stage = Prepare | Split | Geometry_derive | Grid_generate | Hypothesis_generate

fun stage_no :: "stage \<Rightarrow> nat" where
  "stage_no Prepare = 0"
| "stage_no Split = 1"
| "stage_no Geometry_derive = 2"
| "stage_no Grid_generate = 3"
| "stage_no Hypothesis_generate = 4"

text \<open>An argument of a program: a path in the working directory, the centre, or any other word.\<close>

datatype arg = File string | Site_center "real \<times> real \<times> real" | Opt string

datatype action =
    Copy_file string string
  | Nice_run program "arg list"
  | Rename_file string string
  | Remove_files "string list"
  | Read_structure string
  | Write_csv string string "real \<times> real \<times> real"
  | Poll_zips nat

datatype frame_result = Done | Failed stage | Raised | Hangs

record frame_env =
  copy_input_ok :: bool
  prepwizard_exit :: int
  rename_ok :: bool
  split_ligand_exit :: int
  split_receptor_exit :: int
  ligand_atoms :: "(real \<times> real \<times> real) list option"
  csv_write_ok :: bool
  gridgen_exit :: int
  zip_listing :: "nat \<Rightarrow> (string \<times> int) list"
  copy_grid_ok :: bool
  epharmacophores_exit :: int
  hypothesis_file :: string

record frame_run =
  actions :: "(stage \<times> action) list"
  result :: frame_result

subsection \<open>Waiting for the grid archive\<close>

text \<open>
  Lines 142-149. One poll lists \<^verbatim>\<open>*.zip\<close> (names that end in \<^verbatim>\<open>.zip\<close> and do not start
  with a dot), sorts the names by modification time, newest first, and takes the first one
  that contains \<^verbatim>\<open>gridgen\<close>. \<^verbatim>\<open>sorted(..., reverse=True)\<close> keeps the order of equal keys,
  which is a stable ascending sort of the reversed list, reversed.
\<close>

definition glob_ext :: "string \<Rightarrow> (string \<times> 'a) list \<Rightarrow> (string \<times> 'a) list" where
  "glob_ext ext listing = filter (\<lambda>f. suffix ext (fst f) \<and> \<not> prefix ''.'' (fst f)) listing"

definition newest_first :: "(string \<times> int) list \<Rightarrow> (string \<times> int) list" where
  "newest_first zs = rev (sort_key snd (rev zs))"

definition newest_gridgen :: "(string \<times> int) list \<Rightarrow> string option" where
  "newest_gridgen listing =
     map_option fst (find (\<lambda>z. sublist ''gridgen'' (fst z)) (newest_first (glob_ext ''.zip'' listing)))"


text \<open>
  The loop \<^verbatim>\<open>while not actual_zip\<close>: poll \<open>n\<close> sees the listing \<open>dir n\<close>; every iteration,
  also the one that finds the archive, ends with \<^verbatim>\<open>time.sleep(2)\<close>. The result is the name
  found and the number of iterations run; \<open>None\<close> is the loop that never ends.
\<close>

partial_function (option) wait_for_zip ::
  "(nat \<Rightarrow> (string \<times> int) list) \<Rightarrow> nat \<Rightarrow> (string \<times> nat) option" where
  "wait_for_zip dir n =
     (case newest_gridgen (dir n) of
        Some z \<Rightarrow> Some (z, Suc n)
      | None \<Rightarrow> wait_for_zip dir (Suc n))"

declare wait_for_zip.simps [code]

subsection \<open>The stages\<close>

text \<open>
  Lines 119-122: the mean of each coordinate, which divides by the number of atoms. The
  centre is kept as three numbers; its rendering with two decimals is left out.
\<close>

definition center_of :: "(real \<times> real \<times> real) list \<Rightarrow> py_error + real \<times> real \<times> real" where
  "center_of atoms =
     (if atoms = [] then Inl ZeroDivisionError
      else Inr (sum_list (map fst atoms) / real (length atoms),
                sum_list (map (fst \<circ> snd) atoms) / real (length atoms),
                sum_list (map (snd \<circ> snd) atoms) / real (length atoms)))"

definition hypothesis_stage ::
  "string \<Rightarrow> frame_env \<Rightarrow> real \<times> real \<times> real \<Rightarrow> (stage \<times> action) list \<Rightarrow> frame_run" where
  "hypothesis_stage base e center done =
     (let lig = base @ ''_prepared-out_lig.mae'';
          rec = base @ ''_prepared-out_recep.mae'';
          hypo_prefix = base @ ''_hypo'';
          run = done @ [(Hypothesis_generate, Nice_run Epharmacophores
                  [Opt ''-WAIT'', Opt ''-rec_file'', File rec, Opt ''-lig_file'', File lig,
                   Site_center center, Opt ''-in_place'', Opt ''-fd'', Opt [],
                   Opt ''-f'', Opt ''7'', Opt ''-site_dist'', Opt ''2.0'',
                   Opt ''-pair_dist'', Opt ''4.0'', Opt ''-xvol'', Opt ''-scale'', Opt ''0.5'',
                   Opt ''-buff'', Opt ''2.0'', Opt ''-limit'', Opt ''5.0'',
                   Opt ''-HOST'', Opt ''localhost:1'', Opt ''-j'', Opt hypo_prefix])]
      in if epharmacophores_exit e \<noteq> 0
         then \<lparr>actions = run, result = Failed Hypothesis_generate\<rparr>
         else \<lparr>actions = run, result = Done\<rparr>)"

definition grid_stage ::
  "string \<Rightarrow> frame_env \<Rightarrow> real \<times> real \<times> real \<Rightarrow> (stage \<times> action) list \<Rightarrow> frame_run" where
  "grid_stage base e center done =
     (let rec = base @ ''_prepared-out_recep.mae'';
          csv_file = base @ ''_grid_input.csv'';
          written = done @ [(Grid_generate, Write_csv csv_file rec center)]
      in if \<not> csv_write_ok e then \<lparr>actions = written, result = Raised\<rparr>
         else
           (let run = written @ [(Grid_generate, Nice_run Glide_gridgen [File csv_file])]
            in if gridgen_exit e \<noteq> 0 then \<lparr>actions = run, result = Failed Grid_generate\<rparr>
               else
                 (case wait_for_zip (zip_listing e) 0 of
                    None \<Rightarrow> \<lparr>actions = run, result = Hangs\<rparr>
                  | Some (actual_zip, polls) \<Rightarrow>
                      (let gridzip = base @ ''_grid.zip'';
                           copied = run @ [(Grid_generate, Poll_zips polls),
                                           (Grid_generate, Copy_file actual_zip gridzip)]
                       in if \<not> copy_grid_ok e then \<lparr>actions = copied, result = Raised\<rparr>
                          else hypothesis_stage base e center copied))))"

definition geometry_stage :: "string \<Rightarrow> frame_env \<Rightarrow> (stage \<times> action) list \<Rightarrow> frame_run" where
  "geometry_stage base e done =
     (let lig = base @ ''_prepared-out_lig.mae'';
          read = done @ [(Geometry_derive, Read_structure lig)]
      in case ligand_atoms e of
           None \<Rightarrow> \<lparr>actions = read, result = Failed Geometry_derive\<rparr>
         | Some atoms \<Rightarrow>
             (case center_of atoms of
                Inl err \<Rightarrow> \<lparr>actions = read, result = Failed Geometry_derive\<rparr>
              | Inr center \<Rightarrow> grid_stage base e center read))"

definition split_stage :: "string \<Rightarrow> frame_env \<Rightarrow> (stage \<times> action) list \<Rightarrow> frame_run" where
  "split_stage base e done =
     (let final_out = base @ ''_prepared.mae'';
          lig = base @ ''_prepared-out_lig.mae'';
          rec = base @ ''_prepared-out_recep.mae'';
          run_lig = done @ [(Split, Nice_run Pv_convert
                      [Opt ''pv_convert.py'', Opt ''-mode'', Opt ''split_ligand'',
                       File final_out, Opt ''-o'', File lig])]
      in if split_ligand_exit e \<noteq> 0 then \<lparr>actions = run_lig, result = Failed Split\<rparr>
         else
           (let run_rec = run_lig @ [(Split, Nice_run Pv_convert
                            [Opt ''pv_convert.py'', Opt ''-mode'', Opt ''split_receptor'',
                             File final_out, Opt ''-o'', File rec])]
            in if split_receptor_exit e \<noteq> 0 then \<lparr>actions = run_rec, result = Failed Split\<rparr>
               else geometry_stage base e run_rec))"

definition prepare_stage :: "string \<Rightarrow> frame_env \<Rightarrow> (stage \<times> action) list \<Rightarrow> frame_run" where
  "prepare_stage base e done =
     (let temp_out = base @ ''_pH7.4_prepared.mae'';
          final_out = base @ ''_prepared.mae'';
          run = done @ [(Prepare, Nice_run Prepwizard
                  [File (base @ ''.mae''), File temp_out, Opt ''-NOJOBID'', Opt ''-noimpref'',
                   Opt ''-noepik'', Opt ''-propka_pH'', Opt ''7.4'', Opt ''-keepfarwat''])]
      in if prepwizard_exit e \<noteq> 0 then \<lparr>actions = run, result = Failed Prepare\<rparr>
         else
           (let renamed = run @ [(Prepare, Rename_file temp_out final_out)]
            in if \<not> rename_ok e then \<lparr>actions = renamed, result = Raised\<rparr>
               else split_stage base e
                      (renamed @ [(Prepare, Remove_files
                         [base @ ''-protassign.log'', base @ ''-protassign.mae'',
                          base @ ''-protassign-out.mae''])])))"

definition process_frame :: "string \<Rightarrow> frame_env \<Rightarrow> frame_run" where
  "process_frame base e =
     (let copied = [(Prepare, Copy_file (''input_mae_files/'' @ base @ ''.mae'') (base @ ''.mae''))]
      in if \<not> copy_input_ok e then \<lparr>actions = copied, result = Raised\<rparr>
         else prepare_stage base e copied)"

text \<open>The paths of the working directory that an action reads, matches or writes.\<close>

fun arg_paths :: "arg \<Rightarrow> string list" where
  "arg_paths (File f) = [f]"
| "arg_paths (Site_center c) = []"
| "arg_paths (Opt s) = []"

fun paths_of :: "action \<Rightarrow> string list" where
  "paths_of (Copy_file src dst) = [src, dst]"
| "paths_of (Nice_run p args) = concat (map arg_paths args)"
| "paths_of (Rename_file src dst) = [src, dst]"
| "paths_of (Remove_files fs) = fs"
| "paths_of (Read_structure f) = [f]"
| "paths_of (Write_csv f rec c) = [f]"
| "paths_of (Poll_zips n) = []"

definition frame_paths :: "frame_run \<Rightarrow> string list" where
  "frame_paths r = concat (map (paths_of \<circ> snd) (actions r))"

text \<open>
  The ways a stage can fail. A stage program exits with a non-zero status; the ligand
  cannot be read or has no atom; or a file operation that the script performs itself in
  that stage fails: the copy of the input file (line 89) and the renaming of the prepared
  file (line 98) in the first stage, the writing of the grid input (lines 129-132) and the
  copy of the grid archive (line 151) in the grid stage.
\<close>

fun stage_fails :: "frame_env \<Rightarrow> stage \<Rightarrow> bool" where
  "stage_fails e Prepare = (\<not> copy_input_ok e \<or> prepwizard_exit e \<noteq> 0 \<or> \<not> rename_ok e)"
| "stage_fails e Split = (split_ligand_exit e \<noteq> 0 \<or> split_receptor_exit e \<noteq> 0)"
| "stage_fails e Geometry_derive =
     (case ligand_atoms e of None \<Rightarrow> True | Some atoms \<Rightarrow> atoms = [])"
| "stage_fails e Grid_generate =
     (\<not> csv_write_ok e \<or> gridgen_exit e \<noteq> 0 \<or> \<not> copy_grid_ok e)"
| "stage_fails e Hypothesis_generate = (epharmacophores_exit e \<noteq> 0)"

fun returned :: "frame_result \<Rightarrow> bool" where
  "returned Done = True"
| "returned (Failed k) = True"
| "returned Raised = False"
| "returned Hangs = False"

section \<open>Batches, worker pools and the final collection\<close>

record config =
  START_IDX :: int
  END_IDX :: int
  STEP :: int
  USER_NCORES :: int
  BATCH_SIZE :: int

text \<open>
  \<^verbatim>\<open>range(0, len(selected_maes), BATCH_SIZE)\<close> and the slice
  \<^verbatim>\<open>selected_maes[batch_start:batch_start + BATCH_SIZE]\<close> (lines 180-181). A negative step
  gives the empty range; a zero step never reaches the range, since line 178 divides by
  it first.
\<close>

function range_from :: "nat \<Rightarrow> nat \<Rightarrow> nat \<Rightarrow> nat list" where
  "range_from i n b = (if 0 < b \<and> i < n then i # range_from (i + b) n b else [])"
  by pat_completeness auto
termination
  by (relation "measure (\<lambda>(i, n, b). n - i)") auto

declare range_from.simps [simp del]

definition batches :: "int \<Rightarrow> 'a list \<Rightarrow> 'a list list" where
  "batches b xs = map (\<lambda>s. take (nat b) (drop s xs)) (range_from 0 (length xs) (nat b))"

text \<open>\<^verbatim>\<open>Pool(processes=min(max(1, USER_NCORES // 2), len(batch)))\<close>, line 184.\<close>

definition pool_width :: "int \<Rightarrow> 'a list \<Rightarrow> int" where
  "pool_width ncores batch = min (max 1 (ncores div 2)) (int (length batch))"

text \<open>
  What the main program does, in order. \<^verbatim>\<open>pool.map\<close> returns once every call of
  \<^verbatim>\<open>process_frame\<close> has returned; when a call raises, \<^verbatim>\<open>pool.map\<close> raises in the main
  program, which has no handler, and when a call never returns, neither does \<^verbatim>\<open>pool.map\<close>.
  In both cases the run goes no further than that batch, and the model records the pool
  and no more of it. The clean-up of line 193 runs \<^verbatim>\<open>jobcontrol -delete finished\<close> without
  \<^verbatim>\<open>check\<close> and inside a handler for every exception: it is attempted once and the loop
  goes on whatever its outcome.
\<close>

datatype event =
    Pool_created int "string list"
  | Frame_finished string frame_run
  | Cleanup
  | Collected string

definition batch_events :: "int \<Rightarrow> (string \<Rightarrow> frame_env) \<Rightarrow> string list \<Rightarrow> event list" where
  "batch_events ncores env batch =
     Pool_created (pool_width ncores batch) batch #
     map (\<lambda>f. Frame_finished f (process_frame f (env f))) batch @ [Cleanup]"

fun run_batches :: "int \<Rightarrow> (string \<Rightarrow> frame_env) \<Rightarrow> string list list \<Rightarrow> event list \<times> bool" where
  "run_batches ncores env [] = ([], True)"
| "run_batches ncores env (batch # rest) =
     (if list_all (\<lambda>f. returned (result (process_frame f (env f)))) batch
      then (case run_batches ncores env rest of
              (later, ok) \<Rightarrow> (batch_events ncores env batch @ later, ok))
      else ([Pool_created (pool_width ncores batch) batch], False))"

text \<open>
  Modelled from the spec: the stage programs are not part of the repository, and the
  script never names the file that the hypothesis program leaves. The spec has every
  completed stage write an output file whose name is fixed and derived from the frame
  identity and a stage suffix, and has one terminal artifact, found by its extension, for
  each frame that completed all stages. Accordingly a frame whose pipeline completes leaves
  the file \<^verbatim>\<open><base_index>_hypo.phypo\<close> in the working directory (the job name of line 153 with
  the extension of line 201), replacing a file of that name; a pipeline that does not
  complete, and every other stage program, leaves no \<^verbatim>\<open>*.phypo\<close> file.
\<close>

definition hypothesis_output :: "string \<Rightarrow> frame_env \<Rightarrow> (string \<times> string) list" where
  "hypothesis_output base e =
     (if result (process_frame base e) = Done then [(base @ ''_hypo.phypo'', hypothesis_file e)]
      else [])"

text \<open>The working directory once the given frames have been run.\<close>

definition working_dir_after ::
  "(string \<times> string) list \<Rightarrow> (string \<Rightarrow> frame_env) \<Rightarrow> string list \<Rightarrow> (string \<times> string) list" where
  "working_dir_after listing env frames =
     fold (\<lambda>f. AList.update (fst f) (snd f))
       (concat (map (\<lambda>s. hypothesis_output s (env s)) frames)) listing"

text \<open>
  Lines 201-202: every \<^verbatim>\<open>*.phypo\<close> of the working directory is copied into the collection
  directory under its own name, replacing a file of that name. The listing is the one of
  the working directory at that moment, with the content of each file.
\<close>

definition collect :: "(string \<times> string) list \<Rightarrow> (string \<rightharpoonup> string) \<Rightarrow> (string \<rightharpoonup> string)" where
  "collect listing H = fold (\<lambda>f H'. H'(fst f \<mapsto> snd f)) (glob_ext ''.phypo'' listing) H"

text \<open>
  The main program, lines 55-78 and 178-204. The world gives what the program finds: whether
  the Schrodinger directory exists (line 60), the stems of the \<^verbatim>\<open>.mae\<close> files of the input
  directory in the order of \<^verbatim>\<open>glob\<close>, the outside answers for each frame, the listing of the
  working directory (names and contents) as it is before the run, and the collection
  directory as it is before the run. Both directories are created with \<^verbatim>\<open>exist_ok=True\<close> and
  never emptied, so either may hold files of earlier runs. The outcome is the list of events,
  how the program ends, and the collection directory it leaves.
\<close>

datatype message = Schrodinger_path_not_found | No_mae_files_in_range

datatype ending = Exit int message | Uncaught py_error | Pool_map_stopped | Completed

record world =
  schrodinger_isdir :: bool
  input_stems :: "string list"
  env_of :: "string \<Rightarrow> frame_env"
  processed_files :: "(string \<times> string) list"
  collected_before :: "string \<rightharpoonup> string"

record outcome =
  events :: "event list"
  ending :: ending
  hypothesis_dir :: "string \<rightharpoonup> string"

definition main :: "(string \<Rightarrow> int option) \<Rightarrow> config \<Rightarrow> world \<Rightarrow> outcome" where
  "main pint cfg w =
     (if \<not> schrodinger_isdir w
      then \<lparr>events = [], ending = Exit 1 Schrodinger_path_not_found,
            hypothesis_dir = collected_before w\<rparr>
      else
        (case selected_maes pint (START_IDX cfg) (END_IDX cfg) (STEP cfg) (input_stems w) of
           Inl err \<Rightarrow> \<lparr>events = [], ending = Uncaught err, hypothesis_dir = collected_before w\<rparr>
         | Inr selected \<Rightarrow>
             if selected = []
             then \<lparr>events = [], ending = Exit 1 No_mae_files_in_range,
                   hypothesis_dir = collected_before w\<rparr>
             else if BATCH_SIZE cfg = 0
             then \<lparr>events = [], ending = Uncaught ZeroDivisionError,
                   hypothesis_dir = collected_before w\<rparr>
             else
               (case run_batches (USER_NCORES cfg) (env_of w) (batches (BATCH_SIZE cfg) selected) of
                  (evs, ok) \<Rightarrow>
                    if ok
                    then
                      (let working = working_dir_after (processed_files w) (env_of w)
                                       (concat (batches (BATCH_SIZE cfg) selected))
                       in \<lparr>events = evs @ map (Collected \<circ> fst) (glob_ext ''.phypo'' working),
                           ending = Completed,
                           hypothesis_dir = collect working (collected_before w)\<rparr>)
                    else \<lparr>events = evs, ending = Pool_map_stopped,
                          hypothesis_dir = collected_before w\<rparr>)))"

section \<open>Observing a run\<close>

text \<open>The frames whose pipeline was run, in the order of the events.\<close>

fun frame_of :: "event \<Rightarrow> string list" where
  "frame_of (Frame_finished f r) = [f]"
| "frame_of (Pool_created width batch) = []"
| "frame_of Cleanup = []"
| "frame_of (Collected name) = []"

definition frames_run :: "event list \<Rightarrow> string list" where
  "frames_run evs = concat (map frame_of evs)"

text \<open>The events of a run that do not report the outcome of frame \<open>f\<close>.\<close>

definition others :: "string \<Rightarrow> event list \<Rightarrow> event list" where
  "others f evs = filter (\<lambda>ev. frame_of ev \<noteq> [f]) evs"

section \<open>Concrete inputs\<close>

text \<open>
  A frame whose programs all succeed, with a grid archive in the working directory from the
  first poll on; a run over the input files 5, 2, 1, 3 with start 1, end 5, step 2, four
  cores and batches of two, in which frame 3 fails in the first stage.
\<close>

definition ok_env :: frame_env where
  "ok_env =
     \<lparr>copy_input_ok = True, prepwizard_exit = 0, rename_ok = True,
      split_ligand_exit = 0, split_receptor_exit = 0,
      ligand_atoms = Some [(1, 2, 3), (3, 4, 5)], csv_write_ok = True, gridgen_exit = 0,
      zip_listing = (\<lambda>n. [(''gridgen_1.zip'', 5)]), copy_grid_ok = True,
      epharmacophores_exit = 0, hypothesis_file = ''hypothesis''\<rparr>"

definition demo_config :: config where
  "demo_config = \<lparr>START_IDX = 1, END_IDX = 5, STEP = 2, USER_NCORES = 4, BATCH_SIZE = 2\<rparr>"

definition demo_world :: world where
  "demo_world =
     \<lparr>schrodinger_isdir = True,
      input_stems = [''5'', ''2'', ''1'', ''3''],
      env_of = (\<lambda>s. if s = ''3'' then ok_env\<lparr>prepwizard_exit := 1\<rparr> else ok_env),
      processed_files = [(''1_hypo.phypo'', ''hypothesis 1''), (''5_hypo.phypo'', ''hypothesis 5'')],
      collected_before = Map.empty\<rparr>"

text \<open>The same run with a file \<^verbatim>\<open>frame2.mae\<close> in the input directory, and with no index on the stride.\<close>

definition unreadable_world :: world where
  "unreadable_world = demo_world\<lparr>input_stems := [''1'', ''frame2'', ''3'']\<rparr>"

definition out_of_range_world :: world where
  "out_of_range_world = demo_world\<lparr>input_stems := [''7'', ''2'', ''4'']\<rparr>"




text \<open>
  A run over the single frame 1, which fails in the first stage, in a working directory that
  still holds the hypothesis file of an earlier run.
\<close>

definition one_config :: config where
  "one_config = \<lparr>START_IDX = 1, END_IDX = 1, STEP = 1, USER_NCORES = 4, BATCH_SIZE = 2\<rparr>"

definition stale_world :: world where
  "stale_world =
     \<lparr>schrodinger_isdir = True,
      input_stems = [''1''],
      env_of = (\<lambda>s. ok_env\<lparr>prepwizard_exit := 1\<rparr>),
      processed_files = [(''7_hypo.phypo'', ''hypothesis of an earlier run'')],
      collected_before = Map.empty\<rparr>"

text \<open>
  The run of the frames 1, 3 and 5 in a working directory and a collection directory that
  hold no hypothesis file, each frame with its own content.
\<close>

definition clean_world :: world where
  "clean_world =
     \<lparr>schrodinger_isdir = True,
      input_stems = [''5'', ''2'', ''1'', ''3''],
      env_of = (\<lambda>s. if s = ''3'' then ok_env\<lparr>prepwizard_exit := 1\<rparr>
                     else ok_env\<lparr>hypothesis_file := ''hypothesis of '' @ s\<rparr>),
      processed_files = [(''notes.txt'', ''kept'')],
      collected_before = Map.empty\<rparr>"

text \<open>
  A run over the frames 1 and 3, one frame per batch, in which PrepWizard exits with
  status 0 for frame 1 without leaving its output file, so that \<^verbatim>\<open>os.rename\<close> raises.
\<close>

definition rename_config :: config where
  "rename_config = \<lparr>START_IDX = 1, END_IDX = 3, STEP = 2, USER_NCORES = 4, BATCH_SIZE = 1\<rparr>"

definition rename_world :: world where
  "rename_world =
     \<lparr>schrodinger_isdir = True,
      input_stems = [''1'', ''3''],
      env_of = (\<lambda>s. if s = ''1'' then ok_env\<lparr>rename_ok := False\<rparr> else ok_env),
      processed_files = [],
      collected_before = Map.empty\<rparr>"

section \<open>Properties of the frame selection\<close>

lemma those_map_all:
  "\<forall>s\<in>set xs. f s \<noteq> None \<Longrightarrow> those (map f xs) = Some (map (\<lambda>s. the (f s)) xs)"
  by (induction xs) auto

lemma those_map_none:
  "s \<in> set xs \<Longrightarrow> f s = None \<Longrightarrow> those (map f xs) = None"
  by (induction xs) (auto split: option.splits)

lemma insort_key_pair:
  "insort_key fst (g x, x) (map (\<lambda>y. (g y, y)) ys) = map (\<lambda>y. (g y, y)) (insort_key g x ys)"
  by (induction ys) auto

lemma sort_key_pair:
  "sort_key fst (map (\<lambda>y. (g y, y)) xs) = map (\<lambda>y. (g y, y)) (sort_key g xs)"
  by (induction xs) (auto simp: insort_key_pair)

lemma zip_map_self: "zip (map g xs) xs = map (\<lambda>y. (g y, y)) xs"
  by (induction xs) auto

lemma index_of_the: "pint s \<noteq> None \<Longrightarrow> the (pint s) = index_of pint s"
  by (auto simp: index_of_def)

lemma all_maes_sorted:
  assumes "\<forall>s\<in>set names. pint s \<noteq> None"
  shows "all_maes pint names = Inr (sort_key (index_of pint) names)"
proof -
  have "map (\<lambda>s. the (pint s)) names = map (index_of pint) names"
    using assms by (simp add: index_of_the)
  then have "those (map pint names) = Some (map (index_of pint) names)"
    using those_map_all [OF assms] by simp
  then show ?thesis
    by (simp add: all_maes_def zip_map_self sort_key_pair comp_def)
qed

lemma all_maes_ValueError:
  "s \<in> set names \<Longrightarrow> pint s = None \<Longrightarrow> all_maes pint names = Inl ValueError"
  by (simp add: all_maes_def those_map_none)

lemma select_frames_filter:
  "step \<noteq> 0 \<Longrightarrow> \<forall>s\<in>set fs. pint s \<noteq> None \<Longrightarrow>
   select_frames pint start end step fs =
     Inr (filter (\<lambda>s. start \<le> index_of pint s \<and> index_of pint s \<le> end \<and>
                       (index_of pint s - start) mod step = 0) fs)"
  by (induction fs) (auto simp: index_of_def)

lemma selected_maes_filter:
  assumes "step \<noteq> 0" and "\<forall>s\<in>set names. pint s \<noteq> None"
  shows "selected_maes pint start end step names =
         Inr (filter (\<lambda>s. start \<le> index_of pint s \<and> index_of pint s \<le> end \<and>
                           (index_of pint s - start) mod step = 0)
                (sort_key (index_of pint) names))"
  using assms by (simp add: selected_maes_def all_maes_sorted select_frames_filter)

text \<open>
  Without any assumption on the indices: the selection is a sublist of the files sorted by
  index, so it is sorted by index and lists no file twice.
\<close>

lemma selected_maes_sorted_distinct:
  assumes "step \<noteq> 0" and "\<forall>s\<in>set names. pint s \<noteq> None" and "distinct names"
      and "selected_maes pint start end step names = Inr sel"
  shows "sorted (map (index_of pint) sel) \<and> distinct sel \<and> set sel \<subseteq> set names"
  using assms selected_maes_filter [OF assms(1,2), of start "end"]
  by (auto simp: sorted_filter)

text \<open>
  Claim C2, amended. For every start and end, every step other than zero and every input
  directory whose stems all read as integers, pairwise different, the selection is returned
  and its indices are exactly the set
  \<open>{i \<in> available. start \<le> i \<le> end \<and> (i - start) mod step = 0}\<close> listed in ascending order
  without repetition. (For step zero no selection is returned, see the counterexample.)
\<close>

theorem selected_maes_range_stride:
  assumes "step \<noteq> 0" and "\<forall>s\<in>set names. pint s \<noteq> None"
      and "distinct (map (index_of pint) names)"
  shows "\<exists>sel. selected_maes pint start end step names = Inr sel \<and>
           map (index_of pint) sel =
             sorted_list_of_set {i \<in> index_of pint ` set names.
                                   start \<le> i \<and> i \<le> end \<and> (i - start) mod step = 0}"
proof -
  let ?idx = "index_of pint"
  let ?sel = "filter (\<lambda>s. start \<le> ?idx s \<and> ?idx s \<le> end \<and> (?idx s - start) mod step = 0)
                (sort_key ?idx names)"
  let ?S = "{i \<in> ?idx ` set names. start \<le> i \<and> i \<le> end \<and> (i - start) mod step = 0}"
  have d: "distinct (map ?idx (sort_key ?idx names))"
    using assms(3) by (metis distinct_sort distinct_map set_sort)
  have "distinct (map ?idx ?sel)"
    using d by (simp add: distinct_map_filter)
  moreover have "sorted (map ?idx ?sel)"
    by (simp add: sorted_filter)
  moreover have "set (map ?idx ?sel) = ?S"
    by auto
  moreover have "finite ?S" by simp
  ultimately have "map ?idx ?sel = sorted_list_of_set ?S"
    by (metis (no_types, lifting) sorted_list_of_set.idem_if_sorted_distinct)
  then show ?thesis
    using selected_maes_filter [OF assms(1,2)] by blast
qed

lemma plain_int_demo:
  "plain_int ''1'' = Some 1" "plain_int ''2'' = Some 2" "plain_int ''3'' = Some 3"
  "plain_int ''5'' = Some 5"
  by (simp_all add: plain_int_def decimal_def digit_of_def)

theorem selected_maes_range_stride_witness:
  "(2::int) \<noteq> 0 \<and> list_all (\<lambda>s. plain_int s \<noteq> None) [''5'', ''2'', ''1'', ''3''] \<and>
   distinct (map (index_of plain_int) [''5'', ''2'', ''1'', ''3'']) \<and>
   selected_maes plain_int 1 5 2 [''5'', ''2'', ''1'', ''3''] = Inr [''1'', ''3'', ''5''] \<and>
   (\<exists>sel. selected_maes plain_int 1 5 2 [''5'', ''2'', ''1'', ''3''] = Inr sel \<and>
      map (index_of plain_int) sel =
        sorted_list_of_set {i \<in> index_of plain_int ` set [''5'', ''2'', ''1'', ''3''].
                              1 \<le> i \<and> i \<le> 5 \<and> (i - 1) mod 2 = 0})"
proof -
  have h1: "(2::int) \<noteq> 0" by simp
  have h2: "\<forall>s\<in>set [''5'', ''2'', ''1'', ''3'']. plain_int s \<noteq> None"
    by (simp add: plain_int_demo)
  have h3: "distinct (map (index_of plain_int) [''5'', ''2'', ''1'', ''3''])"
    by (simp add: index_of_def plain_int_demo)
  have h4: "selected_maes plain_int 1 5 2 [''5'', ''2'', ''1'', ''3''] = Inr [''1'', ''3'', ''5'']"
    by code_simp
  have h2': "list_all (\<lambda>s. plain_int s \<noteq> None) [''5'', ''2'', ''1'', ''3'']"
    by (simp add: plain_int_demo)
  show ?thesis
    using h1 h2' h3 h4 selected_maes_range_stride [OF h1 h2 h3, of 1 5] by blast
qed

text \<open>
  Two files whose stems read as the same integer, such as \<^verbatim>\<open>01.mae\<close> and \<^verbatim>\<open>1.mae\<close>, are
  both selected: the selection lists files, and lists that index twice.
\<close>

lemma same_index_selected_twice:
  "selected_maes plain_int 1 5 2 [''01'', ''1''] = Inr [''01'', ''1'']"
  by code_simp

text \<open>
  Claim C2 as first stated, for every step: with step zero and an available index inside
  the range, line 74 divides by zero: the program stops with \<^verbatim>\<open>ZeroDivisionError\<close> and returns no selection.
\<close>

theorem selected_maes_step_zero_counterexample:
  "selected_maes plain_int 1 5 0 [''1'', ''2'', ''3'', ''5''] = Inl ZeroDivisionError"
  by code_simp

section \<open>Errors before any work\<close>

lemma selected_maes_ValueError:
  "s \<in> set names \<Longrightarrow> pint s = None \<Longrightarrow> selected_maes pint start end step names = Inl ValueError"
  by (simp add: selected_maes_def all_maes_ValueError)

text \<open>
  Claim C10. The stem of every \<^verbatim>\<open>.mae\<close> file of the input directory is read as an integer
  by the sort of line 73. If one stem is not an integer, the enumeration raises
  \<^verbatim>\<open>ValueError\<close>, which nothing catches: the program ends there, with no frame selected, no
  pool created, no stage run and nothing collected. (The enumeration is reached once the
  Schrodinger directory has been found, line 60.)
\<close>

theorem unreadable_stem_aborts:
  assumes "schrodinger_isdir w" and "s \<in> set (input_stems w)" and "pint s = None"
  shows "selected_maes pint (START_IDX cfg) (END_IDX cfg) (STEP cfg) (input_stems w) = Inl ValueError \<and>
         main pint cfg w =
           \<lparr>events = [], ending = Uncaught ValueError, hypothesis_dir = collected_before w\<rparr>"
  using assms by (simp add: main_def selected_maes_ValueError)

theorem unreadable_stem_aborts_witness:
  "schrodinger_isdir unreadable_world \<and> ''frame2'' \<in> set (input_stems unreadable_world) \<and>
   plain_int ''frame2'' = None \<and>
   events (main plain_int demo_config unreadable_world) = [] \<and>
   ending (main plain_int demo_config unreadable_world) = Uncaught ValueError"
proof -
  have h1: "schrodinger_isdir unreadable_world"
    by (simp add: unreadable_world_def demo_world_def)
  have h2: "''frame2'' \<in> set (input_stems unreadable_world)"
    by (simp add: unreadable_world_def)
  have h3: "plain_int ''frame2'' = None"
    by (simp add: plain_int_def decimal_def digit_of_def)
  show ?thesis
    using h1 h2 h3
      unreadable_stem_aborts [where w = unreadable_world and s = "''frame2''" and pint = plain_int
        and cfg = demo_config]
    by simp
qed

text \<open>
  Claim C5. When the selection computed by lines 73-74 is empty, the program prints its
  message and exits with status 1 before any pipeline work: no pool is created, no frame is
  run, no clean-up is made and nothing is copied into the collection directory. (When the
  Schrodinger directory is missing the program has already exited the same way, with the
  message of line 61.)
\<close>

theorem empty_selection_exits:
  assumes "selected_maes pint (START_IDX cfg) (END_IDX cfg) (STEP cfg) (input_stems w) = Inr []"
  shows "main pint cfg w =
           \<lparr>events = [],
            ending = Exit 1 (if schrodinger_isdir w then No_mae_files_in_range
                             else Schrodinger_path_not_found),
            hypothesis_dir = collected_before w\<rparr>"
  using assms by (simp add: main_def)

theorem empty_selection_exits_witness:
  "selected_maes plain_int (START_IDX demo_config) (END_IDX demo_config) (STEP demo_config)
     (input_stems out_of_range_world) = Inr [] \<and>
   events (main plain_int demo_config out_of_range_world) = [] \<and>
   ending (main plain_int demo_config out_of_range_world) = Exit 1 No_mae_files_in_range \<and>
   hypothesis_dir (main plain_int demo_config out_of_range_world) =
     collected_before out_of_range_world"
proof -
  have h: "selected_maes plain_int (START_IDX demo_config) (END_IDX demo_config) (STEP demo_config)
     (input_stems out_of_range_world) = Inr []"
    by code_simp
  have d: "schrodinger_isdir out_of_range_world"
    by (simp add: out_of_range_world_def demo_world_def)
  show ?thesis
    using h d empty_selection_exits [OF h] by simp
qed

section \<open>Batches, pools and clean-ups\<close>



lemma range_from_step:
  "0 < b \<Longrightarrow> i < n \<Longrightarrow> range_from i n b = i # range_from (i + b) n b"
  by (subst range_from.simps) simp

lemma range_from_done:
  "\<not> (0 < b \<and> i < n) \<Longrightarrow> range_from i n b = []"
  by (subst range_from.simps) simp


lemma concat_chunks_from:
  "0 < b \<Longrightarrow>
   concat (map (\<lambda>s. take b (drop s xs)) (range_from i (length xs) b)) = drop i xs"
proof (induction i "length xs" b rule: range_from.induct)
  case (1 i b)
  show ?case
  proof (cases "i < length xs")
    case True
    have "take b (drop i xs) @ drop (i + b) xs = drop i xs"
      by (metis add.commute append_take_drop_id drop_drop)
    with 1 True show ?thesis by (simp add: range_from_step)
  next
    case False
    then show ?thesis by (simp add: range_from_done)
  qed
qed


lemma range_from_less:
  "0 < b \<Longrightarrow> s \<in> set (range_from i n b) \<Longrightarrow> s < n"
proof (induction i n b rule: range_from.induct)
  case (1 i n b)
  show ?case
  proof (cases "i < n")
    case True
    then have "range_from i n b = i # range_from (i + b) n b"
      using \<open>0 < b\<close> by (rule_tac range_from_step)
    with 1 True show ?thesis by auto
  next
    case False
    then have "range_from i n b = []" by (simp add: range_from_done)
    with 1(3) show ?thesis by simp
  qed
qed


lemma batches_concat: "0 < b \<Longrightarrow> concat (batches b xs) = xs"
  using concat_chunks_from [of "nat b" xs 0] by (simp add: batches_def)


lemma batches_member:
  assumes "0 < b" and "B \<in> set (batches b xs)"
  shows "B \<noteq> [] \<and> int (length B) \<le> b"
proof -
  from assms(2) obtain s where s: "s \<in> set (range_from 0 (length xs) (nat b))"
    and B: "B = take (nat b) (drop s xs)"
    by (auto simp: batches_def)
  have "s < length xs" using range_from_less [OF _ s] assms(1) by simp
  then show ?thesis using B assms(1) by auto
qed



lemma run_batches_all_returned:
  "\<forall>B\<in>set bs. \<forall>f\<in>set B. returned (result (process_frame f (env f))) \<Longrightarrow>
   run_batches c env bs = (concat (map (batch_events c env) bs), True)"
  by (induction bs) (auto simp: list_all_iff)




lemma pool_in_run_batches:
  "Pool_created width B \<in> set (fst (run_batches c env bs)) \<Longrightarrow>
   B \<in> set bs \<and> width = pool_width c B"
  by (induction bs) (auto simp: batch_events_def split: if_splits prod.splits)



lemma main_run:
  assumes "schrodinger_isdir w"
    and "selected_maes pint (START_IDX cfg) (END_IDX cfg) (STEP cfg) (input_stems w) = Inr sel"
    and "sel \<noteq> []" and "BATCH_SIZE cfg \<noteq> 0"
    and "run_batches (USER_NCORES cfg) (env_of w) (batches (BATCH_SIZE cfg) sel) = (evs, ok)"
  shows "main pint cfg w =
    (if ok
     then \<lparr>events = evs @ map (Collected \<circ> fst)
                (glob_ext ''.phypo''
                   (working_dir_after (processed_files w) (env_of w)
                      (concat (batches (BATCH_SIZE cfg) sel)))),
           ending = Completed,
           hypothesis_dir =
             collect (working_dir_after (processed_files w) (env_of w)
                        (concat (batches (BATCH_SIZE cfg) sel)))
               (collected_before w)\<rparr>
     else \<lparr>events = evs, ending = Pool_map_stopped, hypothesis_dir = collected_before w\<rparr>)"
  using assms by (simp add: main_def Let_def)



text \<open>
  Claim C4. Every pool the main loop creates is created for a non-empty batch, and its
  width is \<open>min (max 1 \<lfloor>c / 2\<rfloor>) s\<close> for the configured core count \<open>c\<close> and the batch size
  \<open>s\<close> (Python's \<^verbatim>\<open>//\<close> is \<open>div\<close>, the floor of the quotient): half the core count, at least
  1, never more than the batch size.
\<close>

theorem pool_width_of_every_batch:
  assumes "Pool_created width batch \<in> set (events (main pint cfg w))"
  shows "batch \<noteq> [] \<and>
         width = min (max 1 (USER_NCORES cfg div 2)) (int (length batch)) \<and>
         width = min (max 1 \<lfloor>real_of_int (USER_NCORES cfg) / 2\<rfloor>) (int (length batch)) \<and>
         1 \<le> width \<and> width \<le> int (length batch)"
proof -
  let ?sel = "selected_maes pint (START_IDX cfg) (END_IDX cfg) (STEP cfg) (input_stems w)"
  have sd: "schrodinger_isdir w"
    using assms by (rule_tac ccontr) (simp add: main_def)
  obtain sel where sel: "?sel = Inr sel"
    using assms sd by (cases ?sel) (auto simp: main_def)
  have ne: "sel \<noteq> []"
    using assms sd sel by (rule_tac ccontr) (simp add: main_def)
  have b: "BATCH_SIZE cfg \<noteq> 0"
    using assms sd sel ne by (rule_tac ccontr) (simp add: main_def)
  obtain evs ok where rb:
    "run_batches (USER_NCORES cfg) (env_of w) (batches (BATCH_SIZE cfg) sel) = (evs, ok)"
    by (cases "run_batches (USER_NCORES cfg) (env_of w) (batches (BATCH_SIZE cfg) sel)")
  have "events (main pint cfg w) =
        (if ok
         then evs @ map (Collected \<circ> fst)
                (glob_ext ''.phypo''
                   (working_dir_after (processed_files w) (env_of w)
                      (concat (batches (BATCH_SIZE cfg) sel))))
         else evs)"
    using main_run [OF sd sel ne b rb] by simp
  then have "Pool_created width batch \<in> set evs"
    using assms by (auto split: if_splits)
  then have P: "Pool_created width batch \<in>
      set (fst (run_batches (USER_NCORES cfg) (env_of w) (batches (BATCH_SIZE cfg) sel)))"
    by (simp add: rb)
  then have mem: "batch \<in> set (batches (BATCH_SIZE cfg) sel)"
    and wd: "width = pool_width (USER_NCORES cfg) batch"
    using pool_in_run_batches by blast+
  have pos: "0 < BATCH_SIZE cfg"
  proof (rule ccontr)
    assume "\<not> 0 < BATCH_SIZE cfg"
    then have "batches (BATCH_SIZE cfg) sel = []"
      by (simp add: batches_def range_from_done)
    with mem show False by simp
  qed
  have ne: "batch \<noteq> []" using batches_member [OF pos mem] by simp
  then have "1 \<le> int (length batch)" by (cases batch) auto
  moreover have "\<lfloor>real_of_int (USER_NCORES cfg) / 2\<rfloor> = USER_NCORES cfg div 2"
    by (simp add: floor_divide_of_int_eq [of _ 2, simplified])
  ultimately show ?thesis
    using ne wd by (simp add: pool_width_def)
qed

theorem pool_width_of_every_batch_witness:
  "Pool_created 2 [''1'', ''3''] \<in> set (events (main plain_int demo_config demo_world)) \<and>
   (2::int) = min (max 1 (USER_NCORES demo_config div 2)) (int (length [''1'', ''3''])) \<and>
   (1::int) \<le> 2"
proof -
  have h: "Pool_created 2 [''1'', ''3''] \<in> set (events (main plain_int demo_config demo_world))"
    by code_simp
  have r: "(2::int) = min (max 1 (USER_NCORES demo_config div 2)) (int (length [''1'', ''3'']))"
    using pool_width_of_every_batch [OF h] by blast
  show ?thesis
    by (intro conjI h r) simp
qed

section \<open>Waiting for the grid archive\<close>













section \<open>The final collection\<close>

lemma fold_update_map_of:
  "fold (\<lambda>f H'. H'(fst f \<mapsto> snd f)) xs H = H ++ map_of (rev xs)"
proof (induction xs arbitrary: H)
  case Nil
  then show ?case by simp
next
  case (Cons x xs)
  let ?g = "\<lambda>f H'. H'(fst f \<mapsto> snd f)"
  have "fold ?g (x # xs) H = fold ?g xs (H(fst x \<mapsto> snd x))"
    by (simp only: fold_simps comp_apply)
  also have "\<dots> = H(fst x \<mapsto> snd x) ++ map_of (rev xs)"
    by (rule Cons.IH)
  also have "\<dots> = H ++ map_of (rev (x # xs))"
    by (cases x) (auto simp: map_add_def map_of_append split: option.splits)
  finally show ?case .
qed

lemma collect_map_add:
  "collect listing H = H ++ map_of (rev (glob_ext ''.phypo'' listing))"
  unfolding collect_def by (rule fold_update_map_of)

lemma dom_collect:
  "dom (collect listing H) = dom H \<union> fst ` set (glob_ext ''.phypo'' listing)"
  by (auto simp: collect_map_add dom_map_of_conv_image_fst)

lemma map_add_twice: "H ++ M ++ M = H ++ M"
  by (rule ext) (simp add: map_add_def split: option.splits)

text \<open>
  Claim C9. Running the collection of lines 201-202 a second time, with the working
  directory unchanged, on the collection directory the first run left, gives the same
  collection directory: every \<^verbatim>\<open>*.phypo\<close> file is copied over itself under its own name,
  and the names in the directory are those it had before together with the names of the
  \<^verbatim>\<open>*.phypo\<close> files, each once.
\<close>

theorem collect_idempotent:
  "collect listing (collect listing H) = collect listing H \<and>
   dom (collect listing (collect listing H)) = dom H \<union> fst ` set (glob_ext ''.phypo'' listing)"
proof -
  have "collect listing (collect listing H) = collect listing H"
    by (simp only: collect_map_add map_add_twice)
  then show ?thesis by (simp only: dom_collect simp_thms)
qed

theorem collect_idempotent_witness:
  "collect (processed_files demo_world) (collect (processed_files demo_world) Map.empty) =
     collect (processed_files demo_world) Map.empty \<and>
   dom (collect (processed_files demo_world) Map.empty) = {''1_hypo.phypo'', ''5_hypo.phypo''}"
proof -
  have "fst ` set (glob_ext ''.phypo'' (processed_files demo_world)) =
        {''1_hypo.phypo'', ''5_hypo.phypo''}"
    by code_simp
  note names = this
  note c = collect_idempotent [of "processed_files demo_world" Map.empty]
  have e: "collect (processed_files demo_world) (collect (processed_files demo_world) Map.empty) =
           collect (processed_files demo_world) Map.empty"
    using c by (rule conjunct1)
  have "dom (collect (processed_files demo_world) (collect (processed_files demo_world) Map.empty)) =
        dom (Map.empty :: string \<rightharpoonup> string) \<union>
        fst ` set (glob_ext ''.phypo'' (processed_files demo_world))"
    using c by (rule conjunct2)
  then have "dom (collect (processed_files demo_world) Map.empty) =
             {''1_hypo.phypo'', ''5_hypo.phypo''}"
    by (simp only: e names dom_empty Un_empty_left)
  with e show ?thesis by (rule conjI)
qed

lemma run_batches_ok:
  "run_batches c env bs = (evs, True) \<Longrightarrow>
   evs = concat (map (batch_events c env) bs) \<and>
   (\<forall>B\<in>set bs. \<forall>f\<in>set B. returned (result (process_frame f (env f))))"
  by (induction bs arbitrary: evs) (auto simp: list_all_iff split: if_splits prod.splits)

lemma frames_run_append: "frames_run (xs @ ys) = frames_run xs @ frames_run ys"
  by (simp add: frames_run_def)

lemma frames_run_finished:
  "frames_run (map (\<lambda>f. Frame_finished f (g f)) B) = B"
  by (induction B) (simp_all add: frames_run_def)

lemma frames_run_batch: "frames_run (batch_events c env B) = B"
proof -
  have "frames_run (map (\<lambda>f. Frame_finished f (process_frame f (env f))) B) = B"
    by (rule frames_run_finished)
  moreover have "frames_run [Cleanup] = []" by (simp add: frames_run_def)
  moreover have "frames_run (Pool_created (pool_width c B) B # xs) = frames_run xs" for xs
    by (simp add: frames_run_def)
  ultimately show ?thesis
    by (simp only: batch_events_def frames_run_append append_Nil2)
qed

lemma frames_run_batches:
  "frames_run (concat (map (batch_events c env) bs)) = concat bs"
  by (induction bs) (simp_all add: frames_run_append frames_run_batch, simp add: frames_run_def)

lemma frames_run_collected: "frames_run (map (Collected \<circ> g) xs) = []"
  by (induction xs) (simp_all add: frames_run_def)

lemma main_Completed:
  assumes "ending (main pint cfg w) = Completed"
    and "selected_maes pint (START_IDX cfg) (END_IDX cfg) (STEP cfg) (input_stems w) = Inr sel"
  shows "\<exists>evs. run_batches (USER_NCORES cfg) (env_of w) (batches (BATCH_SIZE cfg) sel) = (evs, True) \<and>
           main pint cfg w =
             \<lparr>events = evs @ map (Collected \<circ> fst)
                  (glob_ext ''.phypo''
                     (working_dir_after (processed_files w) (env_of w)
                        (concat (batches (BATCH_SIZE cfg) sel)))),
              ending = Completed,
              hypothesis_dir =
                collect (working_dir_after (processed_files w) (env_of w)
                           (concat (batches (BATCH_SIZE cfg) sel)))
                  (collected_before w)\<rparr>"
proof -
  have sd: "schrodinger_isdir w"
    using assms(1) by (rule_tac ccontr) (simp add: main_def)
  have ne: "sel \<noteq> []"
    using assms sd by (rule_tac ccontr) (simp add: main_def)
  have b: "BATCH_SIZE cfg \<noteq> 0"
    using assms sd ne by (rule_tac ccontr) (simp add: main_def)
  obtain evs ok where rb:
    "run_batches (USER_NCORES cfg) (env_of w) (batches (BATCH_SIZE cfg) sel) = (evs, ok)"
    by (cases "run_batches (USER_NCORES cfg) (env_of w) (batches (BATCH_SIZE cfg) sel)")
  note m = main_run [OF sd assms(2) ne b rb]
  have ok: "ok"
    using assms(1) m by (rule_tac ccontr) simp
  show ?thesis
    using rb ok m by simp
qed

lemma set_alist_update: "set (AList.update k v al) \<subseteq> insert (k, v) (set al)"
  by (induction al) auto

lemma set_fold_update:
  "set (fold (\<lambda>f. AList.update (fst f) (snd f)) xs al) \<subseteq> set al \<union> set xs"
proof (induction xs arbitrary: al)
  case Nil
  then show ?case by simp
next
  case (Cons x xs)
  have "set (fold (\<lambda>f. AList.update (fst f) (snd f)) xs (AList.update (fst x) (snd x) al))
        \<subseteq> set (AList.update (fst x) (snd x) al) \<union> set xs"
    by (rule Cons.IH)
  also have "\<dots> \<subseteq> insert x (set al) \<union> set xs"
    using set_alist_update [of "fst x" "snd x" al] by auto
  finally show ?case by auto
qed

lemma keys_fold_update:
  "fst ` set (fold (\<lambda>f. AList.update (fst f) (snd f)) xs al) = fst ` set al \<union> fst ` set xs"
  by (induction xs arbitrary: al) (auto simp: dom_update)

lemma set_glob_ext:
  "set (glob_ext ext listing) = {f \<in> set listing. suffix ext (fst f) \<and> \<not> prefix ''.'' (fst f)}"
  by (auto simp: glob_ext_def)

lemma keys_glob_ext:
  "fst ` set (glob_ext ext listing) =
   {n \<in> fst ` set listing. suffix ext n \<and> \<not> prefix ''.'' n}"
  by (force simp: glob_ext_def)

lemma phypo_name: "suffix ''.phypo'' (s @ ''_hypo.phypo'')"
  by (simp add: suffix_def)

lemma prefix_dot_append: "prefix ''.'' (s @ ''_hypo.phypo'') \<longleftrightarrow> prefix ''.'' s"
  by (cases s) auto

text \<open>
  Claim C8, amended. After a full run with a batch size of at least 1, in which \<open>m\<close> of the
  selected frames complete all stages and the others fail at some stage, every selected
  frame has been run exactly once (none is retried) and has returned; and if, before the
  run, the working directory held no \<^verbatim>\<open>*.phypo\<close> file and the collection directory was
  empty, the collection directory contains exactly \<open>m\<close> terminal artifacts: for each
  succeeding frame the file \<^verbatim>\<open><stem>_hypo.phypo\<close> with the content that frame's hypothesis
  stage wrote, and nothing for a frame that failed. (The stems are those of files that
  \<^verbatim>\<open>glob\<close> matches with \<^verbatim>\<open>*.mae\<close>: none begins with a dot.)
\<close>

theorem collection_after_full_run:
  assumes "0 < BATCH_SIZE cfg"
    and "ending (main pint cfg w) = Completed"
    and "selected_maes pint (START_IDX cfg) (END_IDX cfg) (STEP cfg) (input_stems w) = Inr sel"
    and "collected_before w = Map.empty"
    and "glob_ext ''.phypo'' (processed_files w) = []"
    and "\<forall>s\<in>set sel. \<not> prefix ''.'' s"
  shows "frames_run (events (main pint cfg w)) = sel \<and>
         list_all (\<lambda>s. returned (result (process_frame s (env_of w s)))) sel \<and>
         dom (hypothesis_dir (main pint cfg w)) =
           (\<lambda>s. s @ ''_hypo.phypo'') ` {s \<in> set sel. result (process_frame s (env_of w s)) = Done} \<and>
         (\<forall>s\<in>{s \<in> set sel. result (process_frame s (env_of w s)) = Done}.
            hypothesis_dir (main pint cfg w) (s @ ''_hypo.phypo'') =
              Some (hypothesis_file (env_of w s))) \<and>
         card (dom (hypothesis_dir (main pint cfg w))) =
           card {s \<in> set sel. result (process_frame s (env_of w s)) = Done}"
proof -
  let ?bs = "batches (BATCH_SIZE cfg) sel"
  let ?succ = "{s \<in> set sel. result (process_frame s (env_of w s)) = Done}"
  let ?name = "\<lambda>s. s @ ''_hypo.phypo''"
  let ?xs = "concat (map (\<lambda>s. hypothesis_output s (env_of w s)) sel)"
  let ?W = "working_dir_after (processed_files w) (env_of w) sel"
  have cc: "concat ?bs = sel" using assms(1) by (rule batches_concat)
  from main_Completed [OF assms(2,3)] obtain evs where
    rb: "run_batches (USER_NCORES cfg) (env_of w) ?bs = (evs, True)" and
    m: "main pint cfg w =
          \<lparr>events = evs @ map (Collected \<circ> fst) (glob_ext ''.phypo'' ?W),
           ending = Completed,
           hypothesis_dir = collect ?W (collected_before w)\<rparr>"
    unfolding cc by blast
  from run_batches_ok [OF rb] have evs: "evs = concat (map (batch_events (USER_NCORES cfg) (env_of w)) ?bs)"
    and ret: "\<forall>B\<in>set ?bs. \<forall>f\<in>set B. returned (result (process_frame f (env_of w f)))"
    by blast+
  have 1: "frames_run (events (main pint cfg w)) = sel"
    by (simp add: m evs frames_run_append frames_run_batches frames_run_collected cc)
  have "\<forall>f\<in>set (concat ?bs). returned (result (process_frame f (env_of w f)))"
    using ret by auto
  then have 2: "list_all (\<lambda>s. returned (result (process_frame s (env_of w s)))) sel"
    by (simp only: cc list_all_iff)
  have xs: "set ?xs = (\<lambda>s. (?name s, hypothesis_file (env_of w s))) ` ?succ"
    by (auto simp: hypothesis_output_def)
  have W: "?W = fold (\<lambda>f. AList.update (fst f) (snd f)) ?xs (processed_files w)"
    by (simp add: working_dir_after_def)
  have old: "\<not> (suffix ''.phypo'' (fst f) \<and> \<not> prefix ''.'' (fst f))" if "f \<in> set (processed_files w)" for f
    using assms(5) that by (auto simp: glob_ext_def filter_empty_conv)
  have good: "suffix ''.phypo'' (?name s) \<and> \<not> prefix ''.'' (?name s)" if "s \<in> ?succ" for s
    using that assms(6) by (simp add: phypo_name prefix_dot_append)
  have keys: "fst ` set (glob_ext ''.phypo'' ?W) = ?name ` ?succ"
  proof -
    have K: "fst ` set ?W = fst ` set (processed_files w) \<union> ?name ` ?succ"
      unfolding W keys_fold_update xs by (auto simp: image_image)
    have A: "\<not> (suffix ''.phypo'' n \<and> \<not> prefix ''.'' n)" if "n \<in> fst ` set (processed_files w)" for n
      using that old by fastforce
    have B: "suffix ''.phypo'' n \<and> \<not> prefix ''.'' n" if "n \<in> ?name ` ?succ" for n
      using that good by blast
    show ?thesis
      unfolding keys_glob_ext K using A B by blast
  qed
  have H: "hypothesis_dir (main pint cfg w) = map_of (rev (glob_ext ''.phypo'' ?W))"
    by (simp add: m assms(4) collect_def fold_update_map_of)
  have 3: "dom (hypothesis_dir (main pint cfg w)) = ?name ` ?succ"
    by (simp add: H dom_map_of_conv_image_fst keys)
  have 4: "hypothesis_dir (main pint cfg w) (?name s) = Some (hypothesis_file (env_of w s))"
    if s: "s \<in> ?succ" for s
  proof -
    have "?name s \<in> dom (hypothesis_dir (main pint cfg w))" using 3 s by blast
    then obtain v where v: "map_of (rev (glob_ext ''.phypo'' ?W)) (?name s) = Some v"
      unfolding H by blast
    then have "(?name s, v) \<in> set (glob_ext ''.phypo'' ?W)"
      using map_of_SomeD by fastforce
    then have "(?name s, v) \<in> set ?W" by (simp add: set_glob_ext)
    then have "(?name s, v) \<in> set (processed_files w) \<union> set ?xs"
      unfolding W using set_fold_update by blast
    moreover have "(?name s, v) \<notin> set (processed_files w)"
      using old [of "(?name s, v)"] good [OF s] by auto
    ultimately have "(?name s, v) \<in> set ?xs" by blast
    then obtain t where "t \<in> ?succ" "?name s = ?name t" "v = hypothesis_file (env_of w t)"
      unfolding xs by blast
    then have "v = hypothesis_file (env_of w s)" by simp
    with v show ?thesis by (simp add: H)
  qed
  have "inj_on ?name ?succ" by (simp add: inj_on_def)
  then have "card (?name ` ?succ) = card ?succ" by (rule card_image)
  with 1 2 3 4 show ?thesis by simp
qed

theorem collection_after_full_run_witness:
  "0 < BATCH_SIZE demo_config \<and>
   ending (main plain_int demo_config clean_world) = Completed \<and>
   selected_maes plain_int (START_IDX demo_config) (END_IDX demo_config) (STEP demo_config)
     (input_stems clean_world) = Inr [''1'', ''3'', ''5''] \<and>
   collected_before clean_world = Map.empty \<and>
   glob_ext ''.phypo'' (processed_files clean_world) = [] \<and>
   list_all (\<lambda>s. \<not> prefix ''.'' s) [''1'', ''3'', ''5''] \<and>
   filter (\<lambda>s. result (process_frame s (env_of clean_world s)) = Done) [''1'', ''3'', ''5''] =
     [''1'', ''5''] \<and>
   frames_run (events (main plain_int demo_config clean_world)) = [''1'', ''3'', ''5''] \<and>
   dom (hypothesis_dir (main plain_int demo_config clean_world)) =
     {''1_hypo.phypo'', ''5_hypo.phypo''} \<and>
   hypothesis_dir (main plain_int demo_config clean_world) ''1_hypo.phypo'' =
     Some ''hypothesis of 1'' \<and>
   hypothesis_dir (main plain_int demo_config clean_world) ''5_hypo.phypo'' =
     Some ''hypothesis of 5'' \<and>
   hypothesis_dir (main plain_int demo_config clean_world) ''3_hypo.phypo'' = None \<and>
   card (dom (hypothesis_dir (main plain_int demo_config clean_world))) = 2"
proof -
  let ?sel = "[''1'', ''3'', ''5'']"
  let ?P = "\<lambda>s. result (process_frame s (env_of clean_world s)) = Done"
  let ?H = "hypothesis_dir (main plain_int demo_config clean_world)"
  have h1: "0 < BATCH_SIZE demo_config" by (simp add: demo_config_def)
  have h2: "ending (main plain_int demo_config clean_world) = Completed" by code_simp
  have h3: "selected_maes plain_int (START_IDX demo_config) (END_IDX demo_config)
              (STEP demo_config) (input_stems clean_world) = Inr ?sel"
    by code_simp
  have h4: "collected_before clean_world = Map.empty" by (simp add: clean_world_def)
  have h5: "glob_ext ''.phypo'' (processed_files clean_world) = []" by code_simp
  have h6': "list_all (\<lambda>s. \<not> prefix ''.'' s) ?sel" by code_simp
  then have h6: "\<forall>s\<in>set ?sel. \<not> prefix ''.'' s" by (simp only: list_all_iff)
  have f: "filter ?P ?sel = [''1'', ''5'']" by code_simp
  have "{s \<in> set ?sel. ?P s} = set (filter ?P ?sel)" by (rule set_filter [symmetric])
  then have succ: "{s \<in> set ?sel. ?P s} = {''1'', ''5''}" by (simp only: f) simp
  note t = collection_after_full_run [OF h1 h2 h3 h4 h5 h6]
  have c1: "frames_run (events (main plain_int demo_config clean_world)) = ?sel"
    using t by blast
  have "dom ?H = (\<lambda>s. s @ ''_hypo.phypo'') ` {s \<in> set ?sel. ?P s}" using t by blast
  then have c3: "dom ?H = {''1_hypo.phypo'', ''5_hypo.phypo''}"
    by (simp only: succ) simp
  have c4: "\<forall>s\<in>{s \<in> set ?sel. ?P s}. ?H (s @ ''_hypo.phypo'') =
              Some (hypothesis_file (env_of clean_world s))"
    using t by blast
  have e1: "hypothesis_file (env_of clean_world ''1'') = ''hypothesis of 1''"
    by (simp add: clean_world_def)
  have e5: "hypothesis_file (env_of clean_world ''5'') = ''hypothesis of 5''"
    by (simp add: clean_world_def)
  have "''1'' \<in> {s \<in> set ?sel. ?P s}" "''5'' \<in> {s \<in> set ?sel. ?P s}"
    by (simp_all only: succ) simp_all
  then have c5: "?H ''1_hypo.phypo'' = Some ''hypothesis of 1''"
    and c6: "?H ''5_hypo.phypo'' = Some ''hypothesis of 5''"
    using c4 e1 e5 by force+
  have c7: "card (dom ?H) = 2" by (simp only: c3) simp
  have "?H ''1_hypo.phypo'' = Some ''hypothesis of 1''" and n3: "?H ''3_hypo.phypo'' = None"
    and "?H ''notes.txt'' = None"
    by code_simp+
  show ?thesis
    by (intro conjI h1 h2 h3 h4 h5 h6' f c1 c3 c5 c6 n3 c7)
qed

text \<open>
  Claim C8 as first stated, without the conditions on the two directories: the collection
  copies whatever \<^verbatim>\<open>*.phypo\<close> files the working directory holds: after a
  run whose only frame failed in the first stage, the collection directory holds the
  hypothesis file an earlier run had left in the working directory.
\<close>

theorem stale_artifact_counterexample:
  "selected_maes plain_int (START_IDX one_config) (END_IDX one_config) (STEP one_config)
     (input_stems stale_world) = Inr [''1''] \<and>
   result (process_frame ''1'' (env_of stale_world ''1'')) = Failed Prepare \<and>
   ending (main plain_int one_config stale_world) = Completed \<and>
   hypothesis_dir (main plain_int one_config stale_world) ''7_hypo.phypo'' =
     Some ''hypothesis of an earlier run''"
  by (intro conjI; code_simp)

text \<open>
  In the same way a file that the collection directory held before the run is still there
  after it.
\<close>

lemma earlier_collection_kept:
  "hypothesis_dir
     (main plain_int one_config (stale_world\<lparr>processed_files := [],
        collected_before := [''9_hypo.phypo'' \<mapsto> ''collected earlier'']\<rparr>))
     ''9_hypo.phypo'' = Some ''collected earlier''"
  by code_simp

section \<open>Failure of one frame\<close>

lemma hypothesis_stage_failed:
  assumes "result (hypothesis_stage base e center done) = Failed k"
    and "\<forall>sa\<in>set done. stage_no (fst sa) \<le> 4"
  shows "stage_fails e k \<and> (\<forall>sa\<in>set (actions (hypothesis_stage base e center done)). stage_no (fst sa) \<le> stage_no k)"
  using assms by (auto simp: hypothesis_stage_def Let_def split: if_splits)

lemma grid_stage_failed:
  assumes "result (grid_stage base e center done) = Failed k"
    and "\<forall>sa\<in>set done. stage_no (fst sa) \<le> 3"
  shows "stage_fails e k \<and> (\<forall>sa\<in>set (actions (grid_stage base e center done)). stage_no (fst sa) \<le> stage_no k)"
proof (cases "csv_write_ok e \<and> gridgen_exit e = 0 \<and> copy_grid_ok e \<and> wait_for_zip (zip_listing e) 0 \<noteq> None")
  case True
  then obtain z polls where w: "wait_for_zip (zip_listing e) 0 = Some (z, polls)" by auto
  let ?done = "done @ [(Grid_generate, Write_csv (base @ ''_grid_input.csv'') (base @ ''_prepared-out_recep.mae'') center),
       (Grid_generate, Nice_run Glide_gridgen [File (base @ ''_grid_input.csv'')]),
       (Grid_generate, Poll_zips polls), (Grid_generate, Copy_file z (base @ ''_grid.zip''))]"
  have eq: "grid_stage base e center done = hypothesis_stage base e center ?done"
    using True w by (simp add: grid_stage_def Let_def)
  have "\<forall>sa\<in>set ?done. stage_no (fst sa) \<le> 4" using assms(2) by auto
  with assms(1) show ?thesis
    unfolding eq by (intro hypothesis_stage_failed) auto
next
  case False
  with assms show ?thesis
    by (auto simp: grid_stage_def Let_def split: if_splits option.splits prod.splits)
qed

lemma geometry_stage_failed:
  assumes "result (geometry_stage base e done) = Failed k"
    and "\<forall>sa\<in>set done. stage_no (fst sa) \<le> 2"
  shows "stage_fails e k \<and> (\<forall>sa\<in>set (actions (geometry_stage base e done)). stage_no (fst sa) \<le> stage_no k)"
proof (cases "\<exists>atoms. ligand_atoms e = Some atoms \<and> atoms \<noteq> []")
  case True
  then obtain atoms where a: "ligand_atoms e = Some atoms" "atoms \<noteq> []" by blast
  then obtain c where c: "center_of atoms = Inr c" by (auto simp: center_of_def)
  let ?done = "done @ [(Geometry_derive, Read_structure (base @ ''_prepared-out_lig.mae''))]"
  have eq: "geometry_stage base e done = grid_stage base e c ?done"
    using a c by (simp add: geometry_stage_def Let_def)
  have "\<forall>sa\<in>set ?done. stage_no (fst sa) \<le> 3" using assms(2) by auto
  with assms(1) show ?thesis
    unfolding eq by (intro grid_stage_failed) auto
next
  case False
  with assms show ?thesis
    by (auto simp: geometry_stage_def center_of_def Let_def split: option.splits if_splits)
qed

lemma split_stage_failed:
  assumes "result (split_stage base e done) = Failed k"
    and "\<forall>sa\<in>set done. stage_no (fst sa) \<le> 1"
  shows "stage_fails e k \<and> (\<forall>sa\<in>set (actions (split_stage base e done)). stage_no (fst sa) \<le> stage_no k)"
proof (cases "split_ligand_exit e = 0 \<and> split_receptor_exit e = 0")
  case True
  let ?done = "done @
    [(Split, Nice_run Pv_convert [Opt ''pv_convert.py'', Opt ''-mode'', Opt ''split_ligand'',
        File (base @ ''_prepared.mae''), Opt ''-o'', File (base @ ''_prepared-out_lig.mae'')]),
     (Split, Nice_run Pv_convert [Opt ''pv_convert.py'', Opt ''-mode'', Opt ''split_receptor'',
        File (base @ ''_prepared.mae''), Opt ''-o'', File (base @ ''_prepared-out_recep.mae'')])]"
  have eq: "split_stage base e done = geometry_stage base e ?done"
    using True by (simp add: split_stage_def Let_def)
  have "\<forall>sa\<in>set ?done. stage_no (fst sa) \<le> 2" using assms(2) by auto
  with assms(1) show ?thesis
    unfolding eq by (intro geometry_stage_failed) auto
next
  case False
  with assms show ?thesis
    by (auto simp: split_stage_def Let_def split: if_splits)
qed

lemma prepare_stage_failed:
  assumes "result (prepare_stage base e done) = Failed k"
    and "\<forall>sa\<in>set done. stage_no (fst sa) \<le> 0"
  shows "stage_fails e k \<and> (\<forall>sa\<in>set (actions (prepare_stage base e done)). stage_no (fst sa) \<le> stage_no k)"
proof (cases "prepwizard_exit e = 0 \<and> rename_ok e")
  case True
  let ?done = "done @
    [(Prepare, Nice_run Prepwizard
        [File (base @ ''.mae''), File (base @ ''_pH7.4_prepared.mae''), Opt ''-NOJOBID'',
         Opt ''-noimpref'', Opt ''-noepik'', Opt ''-propka_pH'', Opt ''7.4'', Opt ''-keepfarwat'']),
     (Prepare, Rename_file (base @ ''_pH7.4_prepared.mae'') (base @ ''_prepared.mae'')),
     (Prepare, Remove_files [base @ ''-protassign.log'', base @ ''-protassign.mae'',
                             base @ ''-protassign-out.mae''])]"
  have eq: "prepare_stage base e done = split_stage base e ?done"
    using True by (simp add: prepare_stage_def Let_def)
  have "\<forall>sa\<in>set ?done. stage_no (fst sa) \<le> 1" using assms(2) by auto
  with assms(1) show ?thesis
    unfolding eq by (intro split_stage_failed) auto
next
  case False
  with assms show ?thesis
    by (auto simp: prepare_stage_def Let_def split: if_splits)
qed

lemma process_frame_failed:
  assumes "result (process_frame base e) = Failed k"
  shows "stage_fails e k \<and> (\<forall>sa\<in>set (actions (process_frame base e)). stage_no (fst sa) \<le> stage_no k)"
proof (cases "copy_input_ok e")
  case True
  let ?done = "[(Prepare, Copy_file (''input_mae_files/'' @ base @ ''.mae'') (base @ ''.mae''))]"
  have eq: "process_frame base e = prepare_stage base e ?done"
    using True by (simp add: process_frame_def Let_def)
  have "\<forall>sa\<in>set ?done. stage_no (fst sa) \<le> 0" by simp
  with assms show ?thesis
    unfolding eq by (intro prepare_stage_failed) auto
next
  case False
  with assms show ?thesis by (simp add: process_frame_def Let_def)
qed

text \<open>
  When stage \<open>k\<close> is one that fails, in whichever way, the pipeline does not complete and
  performs no action beyond stage \<open>k\<close>, wherever it stops.
\<close>

lemma hypothesis_stage_bounded:
  assumes "stage_fails e k" and "4 \<le> stage_no k"
    and "\<forall>sa\<in>set done. stage_no (fst sa) \<le> stage_no k"
  shows "result (hypothesis_stage base e center done) \<noteq> Done \<and>
         (\<forall>sa\<in>set (actions (hypothesis_stage base e center done)). stage_no (fst sa) \<le> stage_no k)"
  using assms by (cases k) (auto simp: hypothesis_stage_def Let_def)

lemma grid_stage_bounded:
  assumes "stage_fails e k" and "3 \<le> stage_no k"
    and "\<forall>sa\<in>set done. stage_no (fst sa) \<le> stage_no k"
  shows "result (grid_stage base e center done) \<noteq> Done \<and>
         (\<forall>sa\<in>set (actions (grid_stage base e center done)). stage_no (fst sa) \<le> stage_no k)"
proof (cases "csv_write_ok e \<and> gridgen_exit e = 0 \<and> copy_grid_ok e \<and> wait_for_zip (zip_listing e) 0 \<noteq> None")
  case True
  then obtain z polls where w: "wait_for_zip (zip_listing e) 0 = Some (z, polls)" by auto
  let ?done = "done @ [(Grid_generate, Write_csv (base @ ''_grid_input.csv'') (base @ ''_prepared-out_recep.mae'') center),
       (Grid_generate, Nice_run Glide_gridgen [File (base @ ''_grid_input.csv'')]),
       (Grid_generate, Poll_zips polls), (Grid_generate, Copy_file z (base @ ''_grid.zip''))]"
  have eq: "grid_stage base e center done = hypothesis_stage base e center ?done"
    using True w by (simp add: grid_stage_def Let_def)
  have k: "4 \<le> stage_no k" using assms(1,2) True by (cases k) auto
  then have "\<forall>sa\<in>set ?done. stage_no (fst sa) \<le> stage_no k" using assms(3) by auto
  with assms(1) k show ?thesis
    unfolding eq by (intro hypothesis_stage_bounded) auto
next
  case False
  with assms show ?thesis
    by (auto simp: grid_stage_def Let_def split: if_splits option.splits prod.splits)
qed

lemma geometry_stage_bounded:
  assumes "stage_fails e k" and "2 \<le> stage_no k"
    and "\<forall>sa\<in>set done. stage_no (fst sa) \<le> stage_no k"
  shows "result (geometry_stage base e done) \<noteq> Done \<and>
         (\<forall>sa\<in>set (actions (geometry_stage base e done)). stage_no (fst sa) \<le> stage_no k)"
proof (cases "\<exists>atoms. ligand_atoms e = Some atoms \<and> atoms \<noteq> []")
  case True
  then obtain atoms where a: "ligand_atoms e = Some atoms" "atoms \<noteq> []" by blast
  then obtain c where c: "center_of atoms = Inr c" by (auto simp: center_of_def)
  let ?done = "done @ [(Geometry_derive, Read_structure (base @ ''_prepared-out_lig.mae''))]"
  have eq: "geometry_stage base e done = grid_stage base e c ?done"
    using a c by (simp add: geometry_stage_def Let_def)
  have k: "3 \<le> stage_no k" using assms(1,2) a by (cases k) auto
  then have "\<forall>sa\<in>set ?done. stage_no (fst sa) \<le> stage_no k" using assms(3) by auto
  with assms(1) k show ?thesis
    unfolding eq by (intro grid_stage_bounded) auto
next
  case False
  with assms show ?thesis
    by (auto simp: geometry_stage_def center_of_def Let_def split: option.splits if_splits)
qed

lemma split_stage_bounded:
  assumes "stage_fails e k" and "1 \<le> stage_no k"
    and "\<forall>sa\<in>set done. stage_no (fst sa) \<le> stage_no k"
  shows "result (split_stage base e done) \<noteq> Done \<and>
         (\<forall>sa\<in>set (actions (split_stage base e done)). stage_no (fst sa) \<le> stage_no k)"
proof (cases "split_ligand_exit e = 0 \<and> split_receptor_exit e = 0")
  case True
  let ?done = "done @
    [(Split, Nice_run Pv_convert [Opt ''pv_convert.py'', Opt ''-mode'', Opt ''split_ligand'',
        File (base @ ''_prepared.mae''), Opt ''-o'', File (base @ ''_prepared-out_lig.mae'')]),
     (Split, Nice_run Pv_convert [Opt ''pv_convert.py'', Opt ''-mode'', Opt ''split_receptor'',
        File (base @ ''_prepared.mae''), Opt ''-o'', File (base @ ''_prepared-out_recep.mae'')])]"
  have eq: "split_stage base e done = geometry_stage base e ?done"
    using True by (simp add: split_stage_def Let_def)
  have k: "2 \<le> stage_no k" using assms(1,2) True by (cases k) auto
  then have "\<forall>sa\<in>set ?done. stage_no (fst sa) \<le> stage_no k" using assms(3) by auto
  with assms(1) k show ?thesis
    unfolding eq by (intro geometry_stage_bounded) auto
next
  case False
  with assms show ?thesis
    by (auto simp: split_stage_def Let_def split: if_splits)
qed

lemma prepare_stage_bounded:
  assumes "stage_fails e k" and "copy_input_ok e"
    and "\<forall>sa\<in>set done. stage_no (fst sa) \<le> stage_no k"
  shows "result (prepare_stage base e done) \<noteq> Done \<and>
         (\<forall>sa\<in>set (actions (prepare_stage base e done)). stage_no (fst sa) \<le> stage_no k)"
proof (cases "prepwizard_exit e = 0 \<and> rename_ok e")
  case True
  let ?done = "done @
    [(Prepare, Nice_run Prepwizard
        [File (base @ ''.mae''), File (base @ ''_pH7.4_prepared.mae''), Opt ''-NOJOBID'',
         Opt ''-noimpref'', Opt ''-noepik'', Opt ''-propka_pH'', Opt ''7.4'', Opt ''-keepfarwat'']),
     (Prepare, Rename_file (base @ ''_pH7.4_prepared.mae'') (base @ ''_prepared.mae'')),
     (Prepare, Remove_files [base @ ''-protassign.log'', base @ ''-protassign.mae'',
                             base @ ''-protassign-out.mae''])]"
  have eq: "prepare_stage base e done = split_stage base e ?done"
    using True by (simp add: prepare_stage_def Let_def)
  have k: "1 \<le> stage_no k" using assms(1,2) True by (cases k) auto
  have "\<forall>sa\<in>set ?done. stage_no (fst sa) \<le> stage_no k" using assms(3) by auto
  with assms(1) k show ?thesis
    unfolding eq by (intro split_stage_bounded) auto
next
  case False
  with assms show ?thesis
    by (auto simp: prepare_stage_def Let_def split: if_splits)
qed

lemma process_frame_bounded:
  assumes "stage_fails e k"
  shows "result (process_frame base e) \<noteq> Done \<and>
         (\<forall>sa\<in>set (actions (process_frame base e)). stage_no (fst sa) \<le> stage_no k)"
proof (cases "copy_input_ok e")
  case True
  let ?done = "[(Prepare, Copy_file (''input_mae_files/'' @ base @ ''.mae'') (base @ ''.mae''))]"
  have eq: "process_frame base e = prepare_stage base e ?done"
    using True by (simp add: process_frame_def Let_def)
  have "\<forall>sa\<in>set ?done. stage_no (fst sa) \<le> stage_no k" by simp
  with assms True show ?thesis
    unfolding eq by (intro prepare_stage_bounded) auto
next
  case False
  then show ?thesis by (simp add: process_frame_def Let_def)
qed

text \<open>
  The handlers of \<^verbatim>\<open>process_frame\<close> catch \<^verbatim>\<open>CalledProcessError\<close> and, around the
  computation of the centre only, every exception. An exception of \<^verbatim>\<open>os.rename\<close> (line 98,
  inside the first \<^verbatim>\<open>try\<close>) is not a \<^verbatim>\<open>CalledProcessError\<close>: it leaves \<^verbatim>\<open>process_frame\<close>
  uncaught, and so do the failures of the other file operations of the script.
\<close>

lemma rename_failure_raises:
  "copy_input_ok e \<Longrightarrow> prepwizard_exit e = 0 \<Longrightarrow> \<not> rename_ok e \<Longrightarrow>
   result (process_frame base e) = Raised"
  by (simp add: process_frame_def prepare_stage_def Let_def)

lemma prepwizard_failure:
  "copy_input_ok e \<Longrightarrow> prepwizard_exit e \<noteq> 0 \<Longrightarrow> result (process_frame base e) = Failed Prepare"
  by (simp add: process_frame_def prepare_stage_def Let_def)

lemma no_atoms_failure:
  assumes "copy_input_ok e" and "prepwizard_exit e = 0" and "rename_ok e"
    and "split_ligand_exit e = 0" and "split_receptor_exit e = 0" and "ligand_atoms e = Some []"
  shows "result (process_frame base e) = Failed Geometry_derive"
  using assms
  by (simp add: process_frame_def prepare_stage_def split_stage_def geometry_stage_def
      center_of_def Let_def)

lemma others_append: "others f (xs @ ys) = others f xs @ others f ys"
  by (simp add: others_def)

lemma others_batch_events:
  assumes "\<forall>g. g \<noteq> f \<longrightarrow> env' g = env g"
  shows "others f (batch_events c env' B) = others f (batch_events c env B)"
proof -
  have "others f (map (\<lambda>g. Frame_finished g (process_frame g (env' g))) B) =
        others f (map (\<lambda>g. Frame_finished g (process_frame g (env g))) B)"
    using assms by (induction B) (auto simp: others_def)
  then show ?thesis
    by (simp add: batch_events_def others_append) (simp add: others_def)
qed

lemma run_batches_isolated:
  assumes "\<forall>g. g \<noteq> f \<longrightarrow> env' g = env g"
    and "returned (result (process_frame f (env' f)))"
    and "returned (result (process_frame f (env f)))"
  shows "snd (run_batches c env' bs) = snd (run_batches c env bs) \<and>
         others f (fst (run_batches c env' bs)) = others f (fst (run_batches c env bs))"
proof (induction bs)
  case Nil
  then show ?case by simp
next
  case (Cons B bs)
  have same: "list_all (\<lambda>g. returned (result (process_frame g (env' g)))) B =
              list_all (\<lambda>g. returned (result (process_frame g (env g)))) B"
    unfolding list_all_iff
  proof (intro ball_cong refl)
    fix g assume "g \<in> set B"
    show "returned (result (process_frame g (env' g))) = returned (result (process_frame g (env g)))"
      using assms by (cases "g = f") auto
  qed
  show ?case
  proof (cases "list_all (\<lambda>g. returned (result (process_frame g (env g)))) B")
    case True
    obtain l ok where a: "run_batches c env bs = (l, ok)" by (cases "run_batches c env bs")
    obtain l' ok' where b: "run_batches c env' bs = (l', ok')" by (cases "run_batches c env' bs")
    have "ok' = ok" "others f l' = others f l" using Cons a b by simp_all
    then show ?thesis
      using True same a b others_batch_events [OF assms(1), of c B]
      by (simp add: others_append)
  next
    case False
    then show ?thesis
      using same by (simp add: others_def)
  qed
qed

text \<open>
  A pipeline that does not return ends the run at its batch: the pool has been created,
  and neither the clean-up nor any later batch follows.
\<close>

lemma run_batches_stops:
  "f \<in> set B \<Longrightarrow> \<not> returned (result (process_frame f (env f))) \<Longrightarrow>
   run_batches c env (B # rest) = ([Pool_created (pool_width c B) B], False)"
  by (auto simp: list_all_iff)

text \<open>
  Claim C1 evaluated on the code. The first half of the claim holds for every failure of a
  stage: no later stage is invoked (\<open>process_frame_bounded\<close>), and a failure that a handler
  catches leaves the rest of the run as it is (\<open>run_batches_isolated\<close>). The second half
  does not hold for a failure that no handler catches. In a run over the frames 1 and 3,
  one per batch, PrepWizard exits with status 0 for frame 1 but its output file is missing:
  the first stage of frame 1 fails at \<^verbatim>\<open>os.rename\<close>, the exception leaves \<^verbatim>\<open>process_frame\<close>
  and \<^verbatim>\<open>pool.map\<close>, and the program ends there. Frame 3, whose pipeline would complete, is
  never started, and no clean-up or collection is made.
\<close>

theorem uncaught_failure_stops_run:
  "stage_fails (env_of rename_world ''1'') Prepare \<and>
   result (process_frame ''1'' (env_of rename_world ''1'')) = Raised \<and>
   selected_maes plain_int (START_IDX rename_config) (END_IDX rename_config) (STEP rename_config)
     (input_stems rename_world) = Inr [''1'', ''3''] \<and>
   batches (BATCH_SIZE rename_config) [''1'', ''3''] = [[''1''], [''3'']] \<and>
   result (process_frame ''3'' (env_of rename_world ''3'')) = Done \<and>
   events (main plain_int rename_config rename_world) = [Pool_created 1 [''1'']] \<and>
   frames_run (events (main plain_int rename_config rename_world)) = [] \<and>
   ending (main plain_int rename_config rename_world) = Pool_map_stopped"
  by (intro conjI; code_simp)

section \<open>File names of different frames\<close>

text \<open>
  Claim C7 evaluated on the code. The poll of lines 144-148 lists \<^verbatim>\<open>*.zip\<close> and takes the
  newest name containing \<^verbatim>\<open>gridgen\<close>: the pattern does not carry the frame's index. Two
  different frames whose polls see the archive \<^verbatim>\<open>gridgen_1.zip\<close> both copy that same file,
  each into its own \<^verbatim>\<open><index>_grid.zip\<close>; the paths the two pipelines read are not disjoint.
\<close>

theorem grid_archive_shared_between_frames:
  "(Grid_generate, Copy_file ''gridgen_1.zip'' ''1_grid.zip'')
     \<in> set (actions (process_frame ''1'' ok_env)) \<and>
   (Grid_generate, Copy_file ''gridgen_1.zip'' ''2_grid.zip'')
     \<in> set (actions (process_frame ''2'' ok_env)) \<and>
   ''gridgen_1.zip'' \<in> set (frame_paths (process_frame ''1'' ok_env)) \<and>
   ''gridgen_1.zip'' \<in> set (frame_paths (process_frame ''2'' ok_env))"
  by code_simp

end
